theory Spec2Isabelle
  imports Main
begin

section \<open>Data model\<close>

text \<open>
  The scripts are batch pipelines over two remote collections, \<open>document_metadata\<close> and
  \<open>document_transcriptions\<close>, an object store and a generative transcription API.
  Every remote call can raise; the scripts catch exceptions at fixed places. Exceptions
  are values of \<open>py_error\<close>, and the remote collaborators are oracles of an environment
  record, so that every \<open>try/except\<close> of the source is a case split of the model.
  Log lines written with \<open>print\<close> are not part of the model.
\<close>

datatype py_error = IndexError | RemoteError

text \<open>A row of \<open>document_metadata\<close>: \<open>doc_id\<close> is the row's identifier (\<open>doc.id\<close>);
  \<open>total_pages\<close> and \<open>random\<close> may be absent, \<open>doc.get\<close> then gives \<open>None\<close>.\<close>

record mrow =
  doc_id :: string
  doc_file_name :: string
  path :: string
  bucket :: string
  status :: string
  total_pages :: "int option"
  random :: "int option"

text \<open>A row of \<open>document_transcriptions\<close>, a Python dict. The scripts write different
  key sets: a key a script does not write is \<open>None\<close> here.\<close>

record trow =
  transcription :: string
  page :: "int option"
  start_page :: "int option"
  end_page :: "int option"
  file_name :: string
  document_id :: "string option"

text \<open>The database: metadata rows, and transcription rows with their row identifiers
  (Firestore deletes a transcription by its own identifier).\<close>

record db =
  document_metadata :: "mrow list"
  document_transcriptions :: "(nat \<times> trow) list"

text \<open>A parsed PDF is the list of its pages (\<open>reader.pages\<close>); a page-group's bytes are
  the pages given to its writer, in order.\<close>

type_synonym pdf = "string list"

text \<open>The response of the generative model: whether \<open>response.candidates\<close> is non-empty,
  and \<open>response.text\<close> (\<open>response_text\<close>, the empty string when there is no text).\<close>

record response =
  candidates :: bool
  response_text :: string

text \<open>The remote collaborators. \<open>storage\<close> downloads and parses the document stored at
  a path of the Firebase bucket, \<open>supabase_storage\<close> the file of a Supabase bucket (bucket,
  then file name); \<open>generate_content\<close> is the model call on a page-group; \<open>stream_ok\<close>
  says whether listing the transcriptions of a document id succeeds; \<open>add_ok\<close> whether
  inserting a row succeeds. The other fields are the calls of the first-pass scripts on the
  document database, which raise into the handler of the whole run or of the document:
  \<open>select_ok\<close> says whether the query for the metadata rows of a status (and, when given,
  of a selector) succeeds; \<open>delete_ok\<close> whether deleting the transcription with an
  identifier succeeds; \<open>delete_eq_ok\<close> whether \<open>delete().eq('document_id', d)\<close>
  succeeds; \<open>update_ok\<close> whether the update of the status succeeds (the id or the file name
  of the row filter, then the new status); \<open>create_client_ok\<close> whether the Supabase
  client is created. The query of the error-recovery script for its documents is taken to
  succeed.\<close>

record env =
  storage :: "string \<Rightarrow> py_error + pdf"
  supabase_storage :: "string \<Rightarrow> string \<Rightarrow> py_error + pdf"
  generate_content :: "pdf \<Rightarrow> int \<Rightarrow> py_error + response"
  stream_ok :: "string \<Rightarrow> bool"
  add_ok :: "trow \<Rightarrow> bool"
  select_ok :: "string \<Rightarrow> int option \<Rightarrow> bool"
  delete_ok :: "nat \<Rightarrow> bool"
  delete_eq_ok :: "string \<Rightarrow> bool"
  update_ok :: "string \<Rightarrow> string \<Rightarrow> bool"
  create_client_ok :: bool

text \<open>The outcome of a part of a run that an exception may end: the database when the part
  has ended, with the exception when one was raised.\<close>

datatype run = Done db | Aborted py_error db

definition db_of :: "run \<Rightarrow> db" where
  "db_of r = (case r of Done st \<Rightarrow> st | Aborted ex st \<Rightarrow> st)"

text \<open>A \<open>for\<close> loop whose body may raise: the exception ends the loop.\<close>

fun for_each :: "('a \<Rightarrow> db \<Rightarrow> run) \<Rightarrow> 'a list \<Rightarrow> db \<Rightarrow> run" where
  "for_each body [] st = Done st"
| "for_each body (x # xs) st =
     (case body x st of
        Done st' \<Rightarrow> for_each body xs st'
      | Aborted ex st' \<Rightarrow> Aborted ex st')"

text \<open>The placeholder of the error-recovery pipeline, the UTF-8 bytes of the four
  characters of the source's literal.\<close>

definition naiyou_nashi :: string where
  "naiyou_nashi = [CHR 0xE5, CHR 0x86, CHR 0x85, CHR 0xE5, CHR 0xAE, CHR 0xB9,
                   CHR 0xE3, CHR 0x81, CHR 0xAA, CHR 0xE3, CHR 0x81, CHR 0x97]"

subsection \<open>Python helpers\<close>

text \<open>\<open>str(n)\<close> for an integer, used by the f-strings that name page-groups.\<close>

fun digits :: "nat \<Rightarrow> string" where
  "digits n = (if n < 10 then [char_of (48 + n)]
               else digits (n div 10) @ [char_of (48 + n mod 10)])"

declare digits.simps [simp del]

definition str :: "int \<Rightarrow> string" where
  "str i = (if i < 0 then CHR ''-'' # digits (nat (- i)) else digits (nat i))"

text \<open>\<open>range(a, b)\<close> and \<open>range(a, b, s)\<close> for a positive step \<open>s\<close>.\<close>

definition py_range :: "int \<Rightarrow> int \<Rightarrow> int list" where
  "py_range a b = [a..b - 1]"

definition py_range_step :: "int \<Rightarrow> int \<Rightarrow> int \<Rightarrow> int list" where
  "py_range_step a b s = map (\<lambda>k. a + int k * s) [0..<nat ((b - a + s - 1) div s)]"

text \<open>\<open>reader.pages[j]\<close>: a negative index counts from the end, an index out of range
  raises \<open>IndexError\<close>.\<close>

definition pages_get :: "pdf \<Rightarrow> int \<Rightarrow> py_error + string" where
  "pages_get pages j =
     (let n = int (length pages); k = (if j < 0 then n + j else j)
      in if 0 \<le> k \<and> k < n then Inr (pages ! nat k) else Inl IndexError)"

section \<open>The error-recovery pipeline (process-processed/transcribe\_error\_page6.py)\<close>

text \<open>A page-group of the one-page scripts: the dict with keys \<open>name\<close>, \<open>data\<close>, \<open>page\<close>.\<close>

record page_group =
  name :: string
  data :: pdf
  gpage :: int

text \<open>\<open>extract_specific_pages_from_pdf\<close>: one singleton group per requested page number
  that is at most the page count; a page beyond the count is skipped.\<close>

fun extract_specific_pages_from_pdf :: "pdf \<Rightarrow> int list \<Rightarrow> py_error + page_group list" where
  "extract_specific_pages_from_pdf pages [] = Inr []"
| "extract_specific_pages_from_pdf pages (page_num # missing_pages) =
     (if page_num \<le> int (length pages) then
        (case pages_get pages (page_num - 1) of
           Inl e \<Rightarrow> Inl e
         | Inr p \<Rightarrow>
             (case extract_specific_pages_from_pdf pages missing_pages of
                Inl e \<Rightarrow> Inl e
              | Inr split_pdfs \<Rightarrow>
                  Inr (\<lparr>name = ''page_'' @ str page_num, data = [p], gpage = page_num\<rparr>
                       # split_pdfs)))
      else extract_specific_pages_from_pdf pages missing_pages)"

text \<open>The query \<open>where('document_id', '==', d).stream()\<close> on the transcriptions.\<close>

definition stream_transcriptions :: "env \<Rightarrow> db \<Rightarrow> string \<Rightarrow> py_error + (nat \<times> trow) list" where
  "stream_transcriptions e st d =
     (if stream_ok e d
      then Inr (filter (\<lambda>tdoc. document_id (snd tdoc) = Some d) (document_transcriptions st))
      else Inl RemoteError)"

text \<open>The loop that collects \<open>existing_pages\<close>: a page number is added when it is
  truthy (present and not 0).\<close>

fun existing_pages_loop :: "(nat \<times> trow) list \<Rightarrow> int set \<Rightarrow> int set" where
  "existing_pages_loop [] existing_pages = existing_pages"
| "existing_pages_loop (tdoc # trans_docs) existing_pages =
     (case page (snd tdoc) of
        None \<Rightarrow> existing_pages_loop trans_docs existing_pages
      | Some page_num \<Rightarrow>
          if page_num \<noteq> 0 then existing_pages_loop trans_docs (insert page_num existing_pages)
          else existing_pages_loop trans_docs existing_pages)"

text \<open>\<open>get_missing_pages\<close>: the sorted difference of \<open>1..total_pages\<close> and the existing
  pages; any exception of the listing gives the empty list.\<close>

definition get_missing_pages :: "env \<Rightarrow> db \<Rightarrow> string \<Rightarrow> int \<Rightarrow> int list" where
  "get_missing_pages e st d total_pages' =
     (case stream_transcriptions e st d of
        Inl ex \<Rightarrow> []
      | Inr trans_docs \<Rightarrow>
          (let existing_pages = existing_pages_loop trans_docs {};
               all_pages = set (py_range 1 (total_pages' + 1));
               missing_pages = sorted_list_of_set (all_pages - existing_pages)
           in missing_pages))"

text \<open>\<open>transcribe_pdf\<close> of the error-recovery script. The whole body is inside
  \<open>try\<close>, and the handler returns a string, so the result is a string whatever the remote
  call does. No candidates gives the empty string; an empty text and an exception both
  give the placeholder.\<close>

definition transcribe_pdf_recovery :: "env \<Rightarrow> pdf \<Rightarrow> int \<Rightarrow> string" where
  "transcribe_pdf_recovery e pdf_data page_no =
     (case generate_content e pdf_data page_no of
        Inl ex \<Rightarrow> naiyou_nashi
      | Inr response \<Rightarrow>
          if \<not> candidates response then []
          else if response_text response = [] then naiyou_nashi
          else response_text response)"

text \<open>Inserting a row: the store gives it an identifier that no present row has.\<close>

definition fresh_id :: "(nat \<times> trow) list \<Rightarrow> nat" where
  "fresh_id ts = Suc (fold max (map fst ts) 0)"

definition collection_add :: "env \<Rightarrow> db \<Rightarrow> trow \<Rightarrow> py_error + db" where
  "collection_add e st row =
     (if add_ok e row
      then Inr (st\<lparr>document_transcriptions :=
                    document_transcriptions st @ [(fresh_id (document_transcriptions st), row)]\<rparr>)
      else Inl RemoteError)"

text \<open>\<open>save_to_firestore\<close> (the same in both Firestore scripts): an exception of the
  insert is caught, the database is then as before.\<close>

definition save_to_firestore :: "env \<Rightarrow> db \<Rightarrow> string \<Rightarrow> int \<Rightarrow> string \<Rightarrow> string \<Rightarrow> db" where
  "save_to_firestore e st transcription' page_no file_name' document_id' =
     (let row = \<lparr>transcription = transcription', page = Some page_no, start_page = None,
                 end_page = None, file_name = file_name', document_id = Some document_id'\<rparr>
      in case collection_add e st row of Inl ex \<Rightarrow> st | Inr st' \<Rightarrow> st')"

text \<open>\<open>process_page_batch\<close> (the same in both Firestore scripts, each with its own
  \<open>transcribe_pdf\<close>, here the parameter \<open>transcribe\<close>): the worker pool computes the
  transcription of every group of the batch; the results are then read in submission
  order, and a non-empty one is saved.\<close>

fun process_page_batch ::
  "(env \<Rightarrow> pdf \<Rightarrow> int \<Rightarrow> string) \<Rightarrow> env \<Rightarrow> db \<Rightarrow> page_group list \<Rightarrow> string \<Rightarrow> string \<Rightarrow> db" where
  "process_page_batch transcribe e st [] file_name' doc_id' = st"
| "process_page_batch transcribe e st (pdf # pdf_batch) file_name' doc_id' =
     (let transcription' = transcribe e (data pdf) (gpage pdf)
      in if transcription' \<noteq> []
         then process_page_batch transcribe e
                (save_to_firestore e st transcription' (gpage pdf) file_name' doc_id')
                pdf_batch file_name' doc_id'
         else process_page_batch transcribe e st pdf_batch file_name' doc_id')"

text \<open>The batches \<open>split_pdfs[i:i + batch_size]\<close> for \<open>i\<close> in
  \<open>range(0, len(split_pdfs), batch_size)\<close>.\<close>

definition batches :: "int \<Rightarrow> 'a list \<Rightarrow> 'a list list" where
  "batches batch_size split_pdfs =
     map (\<lambda>i. take (nat batch_size) (drop (nat i) split_pdfs))
         (py_range_step 0 (int (length split_pdfs)) batch_size)"

text \<open>The body of the loop of \<open>process_error_pages\<close> for one document. A missing or
  zero \<open>total_pages\<close> and an empty list of missing pages skip the document; an exception
  of the download or of the extraction is caught and ends the work on this document.\<close>

definition process_error_doc :: "env \<Rightarrow> db \<Rightarrow> mrow \<Rightarrow> db" where
  "process_error_doc e st doc =
     (case total_pages doc of
        None \<Rightarrow> st
      | Some tp \<Rightarrow>
          if tp = 0 then st
          else
            (let missing_pages = get_missing_pages e st (doc_id doc) tp
             in if missing_pages = [] then st
                else
                  (case storage e (path doc) of
                     Inl ex \<Rightarrow> st
                   | Inr pdf_data \<Rightarrow>
                       (case extract_specific_pages_from_pdf pdf_data missing_pages of
                          Inl ex \<Rightarrow> st
                        | Inr split_pdfs \<Rightarrow>
                            fold (\<lambda>batch st'. process_page_batch transcribe_pdf_recovery e st' batch
                                                 (doc_file_name doc) (doc_id doc))
                                 (batches 100 split_pdfs) st))))"


text \<open>The page numbers already recorded for a document: the \<open>page\<close> values of the rows that
  carry its id.\<close>

definition recorded_pages :: "db \<Rightarrow> string \<Rightarrow> int set" where
  "recorded_pages st d =
     set (List.map_filter (\<lambda>tdoc. if document_id (snd tdoc) = Some d then page (snd tdoc) else None)
            (document_transcriptions st))"

section \<open>The one-page first pass (process-unprocessed/transcribe\_documents\_onepage\_6.py)\<close>

text \<open>\<open>split_pdf_in_memory\<close>: one group per page, numbered from 1.\<close>

definition split_pdf_in_memory_onepage :: "pdf \<Rightarrow> page_group list" where
  "split_pdf_in_memory_onepage pages =
     map (\<lambda>i. \<lparr>name = ''page_'' @ str (i + 1), data = [pages ! nat i], gpage = i + 1\<rparr>)
         (py_range 0 (int (length pages)))"

text \<open>\<open>transcribe_pdf\<close> of the first pass: no candidates, an empty text and an exception
  all give the empty string.\<close>

definition transcribe_pdf_onepage :: "env \<Rightarrow> pdf \<Rightarrow> int \<Rightarrow> string" where
  "transcribe_pdf_onepage e pdf_data page_no =
     (case generate_content e pdf_data page_no of
        Inl ex \<Rightarrow> []
      | Inr response \<Rightarrow>
          if \<not> candidates response then []
          else if response_text response = [] then []
          else response_text response)"

text \<open>The effect of the calls on the document database when they succeed: the
  transcriptions of a document id, the deletion of one transcription by its identifier, the
  update of the status of the metadata row with a given id.\<close>

definition query_transcriptions :: "db \<Rightarrow> string \<Rightarrow> (nat \<times> trow) list" where
  "query_transcriptions st d =
     filter (\<lambda>tdoc. document_id (snd tdoc) = Some d) (document_transcriptions st)"

definition delete_transcription :: "db \<Rightarrow> nat \<Rightarrow> db" where
  "delete_transcription st tid =
     st\<lparr>document_transcriptions := filter (\<lambda>tdoc. fst tdoc \<noteq> tid) (document_transcriptions st)\<rparr>"

definition update_status :: "db \<Rightarrow> string \<Rightarrow> string \<Rightarrow> db" where
  "update_status st d s =
     st\<lparr>document_metadata :=
          map (\<lambda>doc. if doc_id doc = d then doc\<lparr>status := s\<rparr> else doc) (document_metadata st)\<rparr>"

text \<open>The query for the transcriptions of a document id and the inner loop
  \<open>for tdoc in trans_docs: ... document(tdoc.id).delete()\<close>. An exception of the query or
  of a deletion is not caught here.\<close>

definition delete_transcriptions_of :: "env \<Rightarrow> db \<Rightarrow> string \<Rightarrow> run" where
  "delete_transcriptions_of e st d =
     (case stream_transcriptions e st d of
        Inl ex \<Rightarrow> Aborted ex st
      | Inr trans_docs \<Rightarrow>
          for_each (\<lambda>tdoc st'. if delete_ok e (fst tdoc)
                                then Done (delete_transcription st' (fst tdoc))
                                else Aborted RemoteError st')
                   trans_docs st)"

text \<open>The first part of \<open>process_documents\<close>: for every document with status \<open>deleted\<close>,
  its transcriptions are deleted and its status becomes \<open>deleted_applied\<close>. An exception
  of the query, of a deletion or of the update ends this part.\<close>

definition sweep_deleted :: "env \<Rightarrow> db \<Rightarrow> run" where
  "sweep_deleted e st =
     (if select_ok e ''deleted'' None then
        for_each (\<lambda>doc st'.
                    case delete_transcriptions_of e st' (doc_id doc) of
                      Aborted ex st'' \<Rightarrow> Aborted ex st''
                    | Done st'' \<Rightarrow>
                        if update_ok e (doc_id doc) ''deleted_applied''
                        then Done (update_status st'' (doc_id doc) ''deleted_applied'')
                        else Aborted RemoteError st'')
                 (filter (\<lambda>doc. status doc = ''deleted'') (document_metadata st)) st
      else Aborted RemoteError st)"

text \<open>The second part: the transcriptions of every document with status \<open>unprocessed\<close>
  are deleted.\<close>

definition purge_unprocessed :: "env \<Rightarrow> db \<Rightarrow> run" where
  "purge_unprocessed e st =
     (if select_ok e ''unprocessed'' None then
        for_each (\<lambda>d st'. delete_transcriptions_of e st' d)
                 (map doc_id (filter (\<lambda>doc. status doc = ''unprocessed'') (document_metadata st))) st
      else Aborted RemoteError st)"

text \<open>The body of the document loop. An exception of the download, of the parsing or of
  the status update is caught by the handler of the document: the status is then not
  updated, and what the batches have inserted stays. (The transcription and the insert
  catch their own exceptions, so the batches raise nothing.)\<close>

definition process_doc_onepage :: "env \<Rightarrow> db \<Rightarrow> mrow \<Rightarrow> db" where
  "process_doc_onepage e st doc =
     (case storage e (path doc) of
        Inl ex \<Rightarrow> st
      | Inr pdf_data \<Rightarrow>
          (let split_pdfs = split_pdf_in_memory_onepage pdf_data;
               st' = fold (\<lambda>batch s. process_page_batch transcribe_pdf_onepage e s batch
                                        (doc_file_name doc) (doc_id doc))
                          (batches 100 split_pdfs) st
           in if update_ok e (doc_id doc) ''processed''
              then update_status st' (doc_id doc) ''processed''
              else st'))"

text \<open>\<open>process_documents\<close>: the two parts of the sweep, the query for the documents with
  status \<open>unprocessed\<close> and selector 6, and the document loop. An exception outside the
  document loop is caught by the handler of the run, which returns: the database is then
  as the exception found it.\<close>

definition process_documents_onepage :: "env \<Rightarrow> db \<Rightarrow> db" where
  "process_documents_onepage e st =
     (case sweep_deleted e st of
        Aborted ex st' \<Rightarrow> st'
      | Done st1 \<Rightarrow>
          (case purge_unprocessed e st1 of
             Aborted ex st' \<Rightarrow> st'
           | Done st2 \<Rightarrow>
               if select_ok e ''unprocessed'' (Some 6) then
                 (let docs = filter (\<lambda>doc. status doc = ''unprocessed'' \<and> random doc = Some 6)
                                    (document_metadata st2)
                  in if docs = [] then st2
                     else fold (\<lambda>doc s. process_doc_onepage e s doc) docs st2)
               else st2))"

section \<open>The two-page first pass on Supabase (transcribe\_documents\_twopage.py)\<close>

text \<open>\<open>split_pdf_in_memory\<close>: the cover (page 1), then groups of two pages from page 2;
  the last group has one page when no second page is left. \<open>reader.pages[0]\<close> raises on
  a document without pages. The dict of a group has only the first page number.\<close>

definition split_pdf_in_memory_twopage :: "pdf \<Rightarrow> py_error + page_group list" where
  "split_pdf_in_memory_twopage pages =
     (let total = int (length pages)
      in case pages_get pages 0 of
           Inl ex \<Rightarrow> Inl ex
         | Inr cover \<Rightarrow>
             Inr (\<lparr>name = ''cover'', data = [cover], gpage = 1\<rparr>
                  # map (\<lambda>i. \<lparr>name = ''pages_'' @ str (i + 1),
                                data = pages ! nat i
                                       # (if i + 1 < total then [pages ! nat (i + 1)] else []),
                                gpage = i + 1\<rparr>)
                        (py_range_step 1 total 2)))"

definition transcribe_pdf_twopage :: "env \<Rightarrow> pdf \<Rightarrow> int \<Rightarrow> string" where
  "transcribe_pdf_twopage e pdf_data page_no =
     (case generate_content e pdf_data page_no of
        Inl ex \<Rightarrow> []
      | Inr response \<Rightarrow>
          if \<not> candidates response then []
          else if response_text response = [] then []
          else response_text response)"

definition save_to_supabase_twopage ::
  "env \<Rightarrow> db \<Rightarrow> string \<Rightarrow> int \<Rightarrow> string \<Rightarrow> string \<Rightarrow> db" where
  "save_to_supabase_twopage e st transcription' page_no file_name' document_id' =
     (let row = \<lparr>transcription = transcription', page = Some page_no, start_page = None,
                 end_page = None, file_name = file_name', document_id = Some document_id'\<rparr>
      in case collection_add e st row of Inl ex \<Rightarrow> st | Inr st' \<Rightarrow> st')"

text \<open>The effect of the Supabase calls when they succeed: \<open>delete().eq('document_id', d)\<close>
  and \<open>update({'status': s}).eq('file_name', f)\<close> (the update by id is \<open>update_status\<close>).\<close>

definition delete_eq_document_id :: "db \<Rightarrow> string \<Rightarrow> db" where
  "delete_eq_document_id st d =
     st\<lparr>document_transcriptions :=
          filter (\<lambda>tdoc. document_id (snd tdoc) \<noteq> Some d) (document_transcriptions st)\<rparr>"

definition update_status_eq_file_name :: "db \<Rightarrow> string \<Rightarrow> string \<Rightarrow> db" where
  "update_status_eq_file_name st f s =
     st\<lparr>document_metadata :=
          map (\<lambda>doc. if doc_file_name doc = f then doc\<lparr>status := s\<rparr> else doc)
              (document_metadata st)\<rparr>"

text \<open>The first part of \<open>process_documents\<close> of the two Supabase scripts: for every
  document with status \<open>deleted\<close>, the transcriptions with its id are deleted and its
  status becomes \<open>deleted_applied\<close>. An exception of the query, of the deletion or of the
  update ends this part.\<close>

definition sweep_deleted_supabase :: "env \<Rightarrow> db \<Rightarrow> run" where
  "sweep_deleted_supabase e st =
     (if select_ok e ''deleted'' None then
        for_each (\<lambda>doc st'.
                    if delete_eq_ok e (doc_id doc) then
                      (let st'' = delete_eq_document_id st' (doc_id doc)
                       in if update_ok e (doc_id doc) ''deleted_applied''
                          then Done (update_status st'' (doc_id doc) ''deleted_applied'')
                          else Aborted RemoteError st'')
                    else Aborted RemoteError st')
                 (filter (\<lambda>doc. status doc = ''deleted'') (document_metadata st)) st
      else Aborted RemoteError st)"

text \<open>The body of the document loop: every group is transcribed and its result is saved,
  whatever it is; the status is then updated for the file name. An exception of the
  download, of the splitting or of the update is caught by the handler of the document.\<close>

definition process_doc_twopage :: "env \<Rightarrow> db \<Rightarrow> mrow \<Rightarrow> db" where
  "process_doc_twopage e st doc =
     (case supabase_storage e (bucket doc) (doc_file_name doc) of
        Inl ex \<Rightarrow> st
      | Inr pdf_data \<Rightarrow>
          (case split_pdf_in_memory_twopage pdf_data of
             Inl ex \<Rightarrow> st
           | Inr split_pdfs \<Rightarrow>
               (let st' = fold (\<lambda>pdf s. save_to_supabase_twopage e s
                                          (transcribe_pdf_twopage e (data pdf) (gpage pdf))
                                          (gpage pdf) (doc_file_name doc) (doc_id doc))
                               split_pdfs st
                in if update_ok e (doc_file_name doc) ''processed''
                   then update_status_eq_file_name st' (doc_file_name doc) ''processed''
                   else st')))"

text \<open>\<open>process_documents\<close>: the client, the sweep, the query for the documents with
  status \<open>unprocessed\<close>, and the document loop. An exception outside the document loop is
  caught by the handler of the run, which returns.\<close>

definition process_documents_twopage :: "env \<Rightarrow> db \<Rightarrow> db" where
  "process_documents_twopage e st =
     (if create_client_ok e then
        (case sweep_deleted_supabase e st of
           Aborted ex st' \<Rightarrow> st'
         | Done st1 \<Rightarrow>
             if select_ok e ''unprocessed'' None then
               (let docs = filter (\<lambda>doc. status doc = ''unprocessed'') (document_metadata st1)
                in if docs = [] then st1
                   else fold (\<lambda>doc s. process_doc_twopage e s doc) docs st1)
             else st1)
      else st)"

section \<open>The page-range first pass on Supabase (transcribe\_document.py)\<close>

text \<open>A page-group with its range: the dict with keys \<open>name\<close>, \<open>data\<close>, \<open>page_start\<close>,
  \<open>page_end\<close>.\<close>

record range_group =
  rname :: string
  rdata :: pdf
  page_start :: int
  page_end :: int

definition split_pdf_in_memory_document :: "pdf \<Rightarrow> py_error + range_group list" where
  "split_pdf_in_memory_document pages =
     (let total = int (length pages)
      in case pages_get pages 0 of
           Inl ex \<Rightarrow> Inl ex
         | Inr cover \<Rightarrow>
             Inr (\<lparr>rname = ''cover'', rdata = [cover], page_start = 1, page_end = 1\<rparr>
                  # map (\<lambda>i. let page_end' = (if i + 1 < total then i + 2 else i + 1)
                              in \<lparr>rname = ''pages_'' @ str (i + 1) @ ''-'' @ str page_end',
                                  rdata = pages ! nat i
                                          # (if i + 1 < total then [pages ! nat (i + 1)] else []),
                                  page_start = i + 1, page_end = page_end'\<rparr>)
                        (py_range_step 1 total 2)))"

definition transcribe_pdf_document :: "env \<Rightarrow> pdf \<Rightarrow> int \<Rightarrow> int \<Rightarrow> string" where
  "transcribe_pdf_document e pdf_data page_start' page_end' =
     (case generate_content e pdf_data page_start' of
        Inl ex \<Rightarrow> []
      | Inr response \<Rightarrow>
          if \<not> candidates response then []
          else if response_text response = [] then []
          else response_text response)"

text \<open>\<open>save_to_supabase\<close> of this script: the row has the keys \<open>transcription\<close>,
  \<open>start_page\<close>, \<open>end_page\<close> and \<open>file_name\<close>, and no other.\<close>

definition save_to_supabase_document ::
  "env \<Rightarrow> db \<Rightarrow> string \<Rightarrow> int \<Rightarrow> int \<Rightarrow> string \<Rightarrow> db" where
  "save_to_supabase_document e st transcription' start_page' end_page' file_name' =
     (let row = \<lparr>transcription = transcription', page = None, start_page = Some start_page',
                 end_page = Some end_page', file_name = file_name', document_id = None\<rparr>
      in case collection_add e st row of Inl ex \<Rightarrow> st | Inr st' \<Rightarrow> st')"

definition process_doc_document :: "env \<Rightarrow> db \<Rightarrow> mrow \<Rightarrow> db" where
  "process_doc_document e st doc =
     (case supabase_storage e ''documents'' (doc_file_name doc) of
        Inl ex \<Rightarrow> st
      | Inr pdf_data \<Rightarrow>
          (case split_pdf_in_memory_document pdf_data of
             Inl ex \<Rightarrow> st
           | Inr split_pdfs \<Rightarrow>
               (let st' = fold (\<lambda>pdf s. save_to_supabase_document e s
                                          (transcribe_pdf_document e (rdata pdf) (page_start pdf)
                                             (page_end pdf))
                                          (page_start pdf) (page_end pdf) (doc_file_name doc))
                               split_pdfs st
                in if update_ok e (doc_file_name doc) ''processed''
                   then update_status_eq_file_name st' (doc_file_name doc) ''processed''
                   else st')))"

definition process_documents_document :: "env \<Rightarrow> db \<Rightarrow> db" where
  "process_documents_document e st =
     (if create_client_ok e then
        (case sweep_deleted_supabase e st of
           Aborted ex st' \<Rightarrow> st'
         | Done st1 \<Rightarrow>
             if select_ok e ''unprocessed'' None then
               (let docs = filter (\<lambda>doc. status doc = ''unprocessed'') (document_metadata st1)
                in if docs = [] then st1
                   else fold (\<lambda>doc s. process_doc_document e s doc) docs st1)
             else st1)
      else st)"

section \<open>The workbook script (transcribe\_workbook.py)\<close>

text \<open>An entry of the problems file.\<close>

record problem =
  problem_number :: int
  problem_start_page :: int
  problem_end_page :: int

text \<open>The loop of \<open>process_workbook\<close> that fills the writer of one problem: the page
  indices \<open>range(start_page - 1, end_page)\<close>, each added when it is below the page count.\<close>

fun add_pages :: "pdf \<Rightarrow> int list \<Rightarrow> py_error + pdf" where
  "add_pages pages [] = Inr []"
| "add_pages pages (page_num # page_nums) =
     (if page_num < int (length pages) then
        (case pages_get pages page_num of
           Inl ex \<Rightarrow> Inl ex
         | Inr p \<Rightarrow>
             (case add_pages pages page_nums of Inl ex \<Rightarrow> Inl ex | Inr ps \<Rightarrow> Inr (p # ps)))
      else add_pages pages page_nums)"

definition pdf_chunk :: "pdf \<Rightarrow> problem \<Rightarrow> py_error + pdf" where
  "pdf_chunk pages pr =
     add_pages pages (py_range (problem_start_page pr - 1) (problem_end_page pr))"

text \<open>The entry point. \<open>sys.argv\<close> holds the script name and the arguments. The result
  is what was printed, the calls of \<open>process_workbook\<close> that were made (problems file,
  then target file name) and how the script ended.\<close>

datatype outcome = SysExit int | Returned

record main_result =
  stdout :: "string list"
  process_workbook_calls :: "(string \<times> string) list"
  ended :: outcome

definition usage :: string where
  "usage = [CHR 0xE4, CHR 0xBD, CHR 0xBF, CHR 0xE7, CHR 0x94, CHR 0xA8,
            CHR 0xE6, CHR 0x96, CHR 0xB9, CHR 0xE6, CHR 0xB3, CHR 0x95]
           @ '': python3 transcribe_workbook.py target_file_name problem_numbers/sample.json''"

definition main :: "string list \<Rightarrow> main_result" where
  "main argv =
     (if length argv \<noteq> 3
      then \<lparr>stdout = [usage], process_workbook_calls = [], ended = SysExit 1\<rparr>
      else (let target_file_name = argv ! 1; problems_file = argv ! 2
            in \<lparr>stdout = [], process_workbook_calls = [(problems_file, target_file_name)],
                ended = Returned\<rparr>))"

section \<open>Page ranges\<close>

text \<open>The notions in which the splitting is specified: a range is a pair (first page,
  last page); ranges are pairwise disjoint, they lie within the document, they are in
  ascending order, and they cover a set of pages.\<close>

definition range_pages :: "int \<times> int \<Rightarrow> int set" where
  "range_pages r = {fst r..snd r}"

fun ranges_disjoint :: "(int \<times> int) list \<Rightarrow> bool" where
  "ranges_disjoint [] = True"
| "ranges_disjoint (r # rs) =
     ((\<forall>r' \<in> set rs. range_pages r \<inter> range_pages r' = {}) \<and> ranges_disjoint rs)"

definition ranges_union :: "(int \<times> int) list \<Rightarrow> int set" where
  "ranges_union rs = \<Union> (set (map range_pages rs))"

definition ranges_within :: "int \<Rightarrow> (int \<times> int) list \<Rightarrow> bool" where
  "ranges_within n rs = (\<forall>r \<in> set rs. 1 \<le> fst r \<and> snd r \<le> n)"

definition ranges_ascending :: "(int \<times> int) list \<Rightarrow> bool" where
  "ranges_ascending rs = sorted (map fst rs)"

text \<open>The pages \<open>a..b\<close> of a document, as the bytes of a page-group.\<close>

definition pages_of :: "pdf \<Rightarrow> int \<Rightarrow> int \<Rightarrow> pdf" where
  "pages_of pages a b = map (\<lambda>k. pages ! nat (k - 1)) [a..b]"

text \<open>The range of a page-group: a group of the one-page and two-page scripts starts
  at its \<open>page\<close> and has as many pages as its bytes hold; a group of the page-range script
  carries its range. For a problem of the workbook, the requested range, and the range
  that the document can give.\<close>

definition group_range :: "page_group \<Rightarrow> int \<times> int" where
  "group_range g = (gpage g, gpage g + int (length (data g)) - 1)"

definition range_group_range :: "range_group \<Rightarrow> int \<times> int" where
  "range_group_range g = (page_start g, page_end g)"

definition requested_range :: "problem \<Rightarrow> int \<times> int" where
  "requested_range pr = (problem_start_page pr, problem_end_page pr)"

definition problem_range :: "pdf \<Rightarrow> problem \<Rightarrow> int \<times> int" where
  "problem_range pages pr = (problem_start_page pr, min (problem_end_page pr) (int (length pages)))"

text \<open>The ranges of the cover-plus-two policy for a document of \<open>n\<close> pages.\<close>

definition cover_two_ranges :: "int \<Rightarrow> (int \<times> int) list" where
  "cover_two_ranges n =
     (1, 1) # map (\<lambda>i. (i + 1, if i + 1 < n then i + 2 else i + 1)) (py_range_step 1 n 2)"

text \<open>A list of ranges partitions a set of pages of a document of \<open>n\<close> pages.\<close>

definition partitions :: "int \<Rightarrow> int set \<Rightarrow> (int \<times> int) list \<Rightarrow> bool" where
  "partitions n S rs = (ranges_disjoint rs \<and> ranges_union rs = S \<and> ranges_within n rs)"

section \<open>The order of the statuses\<close>

text \<open>The order in which a status may change: \<open>unprocessed\<close>, then \<open>processed\<close>, then
  \<open>deleted\<close>, then \<open>deleted_applied\<close>, where a step may be skipped and nothing goes
  back.\<close>

definition status_advances :: "string \<Rightarrow> string \<Rightarrow> bool" where
  "status_advances s s' =
     (s' = s \<or>
      (s = ''unprocessed'' \<and> (s' = ''processed'' \<or> s' = ''deleted'' \<or> s' = ''deleted_applied'')) \<or>
      (s = ''processed'' \<and> (s' = ''deleted'' \<or> s' = ''deleted_applied'')) \<or>
      (s = ''deleted'' \<and> s' = ''deleted_applied''))"


section \<open>Example inputs\<close>

text \<open>A document \<open>d\<close> of five pages with the records of pages 1, 3 and 4, and an
  environment in which every remote call succeeds and the model returns text.\<close>

definition example_row :: "int \<Rightarrow> trow" where
  "example_row p = \<lparr>transcription = ''text'', page = Some p, start_page = None,
                    end_page = None, file_name = ''f.pdf'', document_id = Some ''d''\<rparr>"

definition example_doc :: mrow where
  "example_doc = \<lparr>doc_id = ''d'', doc_file_name = ''f.pdf'', path = ''docs/f.pdf'',
                   bucket = ''documents'', status = ''processed'', total_pages = Some 5,
                   random = Some 6\<rparr>"

definition example_db :: db where
  "example_db = \<lparr>document_metadata = [example_doc],
                  document_transcriptions = [(0, example_row 1), (1, example_row 3), (2, example_row 4)]\<rparr>"

definition example_pdf :: pdf where
  "example_pdf = [''p1'', ''p2'', ''p3'', ''p4'', ''p5'']"

definition example_env :: env where
  "example_env = \<lparr>storage = (\<lambda>p. Inr example_pdf),
                   supabase_storage = (\<lambda>b f. Inr example_pdf),
                   generate_content = (\<lambda>d p. Inr \<lparr>candidates = True, response_text = ''text''\<rparr>),
                   stream_ok = (\<lambda>d. True),
                   add_ok = (\<lambda>r. True),
                   select_ok = (\<lambda>s r. True),
                   delete_ok = (\<lambda>i. True),
                   delete_eq_ok = (\<lambda>d. True),
                   update_ok = (\<lambda>d s. True),
                   create_client_ok = True\<rparr>"



definition listing_fails_env :: env where
  "listing_fails_env = example_env\<lparr>stream_ok := (\<lambda>d. False)\<rparr>"


text \<open>A database with the same document, not yet processed and without records, and
  the page-group of its page 2.\<close>

definition unprocessed_db :: db where
  "unprocessed_db = \<lparr>document_metadata = [example_doc\<lparr>status := ''unprocessed''\<rparr>],
                      document_transcriptions = []\<rparr>"



text \<open>A database with a deleted document \<open>a\<close>, an unprocessed document \<open>b\<close> and a
  processed document \<open>c\<close>, all of the same file name; \<open>a\<close> and \<open>b\<close> have one record
  each.\<close>

definition doc_a :: mrow where
  "doc_a = example_doc\<lparr>doc_id := ''a'', status := ''deleted''\<rparr>"

definition doc_b :: mrow where
  "doc_b = example_doc\<lparr>doc_id := ''b'', status := ''unprocessed''\<rparr>"

definition doc_c :: mrow where
  "doc_c = example_doc\<lparr>doc_id := ''c''\<rparr>"

definition mixed_db :: db where
  "mixed_db = \<lparr>document_metadata = [doc_a, doc_b, doc_c],
                document_transcriptions = [(0, (example_row 1)\<lparr>document_id := Some ''a''\<rparr>),
                                           (1, (example_row 1)\<lparr>document_id := Some ''b''\<rparr>)]\<rparr>"

text \<open>Problems of a workbook with overlapping page ranges, and with disjoint ones (the
  last reaches beyond the five pages of the example PDF).\<close>

definition overlapping_problems :: "problem list" where
  "overlapping_problems =
     [\<lparr>problem_number = 1, problem_start_page = 1, problem_end_page = 2\<rparr>,
      \<lparr>problem_number = 2, problem_start_page = 2, problem_end_page = 3\<rparr>]"

definition example_problems :: "problem list" where
  "example_problems =
     [\<lparr>problem_number = 1, problem_start_page = 1, problem_end_page = 2\<rparr>,
      \<lparr>problem_number = 2, problem_start_page = 3, problem_end_page = 4\<rparr>,
      \<lparr>problem_number = 3, problem_start_page = 5, problem_end_page = 7\<rparr>]"

section \<open>Properties of the missing-page computation\<close>

lemma existing_pages_loop_eq:
  "existing_pages_loop ds acc = acc \<union> {p. p \<noteq> 0 \<and> (\<exists>t \<in> set ds. page (snd t) = Some p)}"
  by (induction ds arbitrary: acc) (auto split: option.splits)

lemma set_map_filter_eq: "set (List.map_filter f xs) = {y. \<exists>x \<in> set xs. f x = Some y}"
  by (induction xs) (auto simp: map_filter_simps split: option.splits)

lemma recorded_pages_eq:
  "recorded_pages st d =
     {p. \<exists>t \<in> set (document_transcriptions st). document_id (snd t) = Some d \<and> page (snd t) = Some p}"
  by (auto simp: recorded_pages_def set_map_filter_eq split: if_splits)

lemma get_missing_pages_listed:
  assumes "stream_ok e d"
  shows "get_missing_pages e st d N = sorted_list_of_set ({1..N} - recorded_pages st d)"
proof -
  have "set (py_range 1 (N + 1))
          - existing_pages_loop
              (filter (\<lambda>tdoc. document_id (snd tdoc) = Some d) (document_transcriptions st)) {}
        = {1..N} - recorded_pages st d"
    by (auto simp: py_range_def existing_pages_loop_eq recorded_pages_eq Bex_def)
  then show ?thesis
    using assms by (simp add: get_missing_pages_def stream_transcriptions_def)
qed

lemma get_missing_pages_raises:
  "\<not> stream_ok e d \<Longrightarrow> get_missing_pages e st d N = []"
  by (simp add: get_missing_pages_def stream_transcriptions_def)


lemma pages_get_in_range:
  "1 \<le> p \<Longrightarrow> p \<le> int (length pages) \<Longrightarrow> pages_get pages (p - 1) = Inr (pages ! nat (p - 1))"
  by (simp add: pages_get_def Let_def)

lemma extract_positive:
  "\<forall>p \<in> set ps. 1 \<le> p \<Longrightarrow>
   extract_specific_pages_from_pdf pages ps =
     Inr (map (\<lambda>p. \<lparr>name = ''page_'' @ str p, data = [pages ! nat (p - 1)], gpage = p\<rparr>)
            (filter (\<lambda>p. p \<le> int (length pages)) ps))"
  by (induction ps) (simp_all add: pages_get_in_range)








section \<open>Lookup failure in the error-recovery pipeline\<close>

text \<open>
  Claim C9. When the listing of the recorded pages of a document raises, \<open>get_missing_pages\<close>
  returns the empty list, and the document loop of \<open>process_error_pages\<close> skips the
  document: the database is left as it was. The empty list is also what the computation
  returns when the listing succeeds and every page \<open>1..N\<close> is recorded, so the caller
  sees the same value in both cases.
\<close>

theorem lookup_failure_skips_document:
  assumes "\<not> stream_ok e (doc_id doc)"
  shows "get_missing_pages e st (doc_id doc) N = [] \<and>
         process_error_doc e st doc = st \<and>
         (\<forall>e'::env. stream_ok e' (doc_id doc) \<and> {1..N} \<subseteq> recorded_pages st (doc_id doc) \<longrightarrow>
               get_missing_pages e' st (doc_id doc) N = get_missing_pages e st (doc_id doc) N)"
proof (intro conjI allI impI)
  show a: "get_missing_pages e st (doc_id doc) N = []"
    using assms by (rule get_missing_pages_raises)
  show "process_error_doc e st doc = st"
    using assms by (simp add: process_error_doc_def get_missing_pages_raises split: option.splits)
  fix e' :: env
  assume "stream_ok e' (doc_id doc) \<and> {1..N} \<subseteq> recorded_pages st (doc_id doc)"
  then have "get_missing_pages e' st (doc_id doc) N = sorted_list_of_set {}"
    by (simp add: get_missing_pages_listed)
  then show "get_missing_pages e' st (doc_id doc) N = get_missing_pages e st (doc_id doc) N"
    using a by simp
qed

theorem lookup_failure_skips_document_witness:
  "\<not> stream_ok listing_fails_env (doc_id example_doc) \<and>
   get_missing_pages listing_fails_env example_db (doc_id example_doc) 5 = [] \<and>
   process_error_doc listing_fails_env example_db example_doc = example_db \<and>
   get_missing_pages example_env example_db (doc_id example_doc) 5 = [2, 5]"
proof -
  have f: "\<not> stream_ok listing_fails_env (doc_id example_doc)"
    by (simp add: listing_fails_env_def)
  have v: "get_missing_pages example_env example_db (doc_id example_doc) 5 = [2, 5]"
    by code_simp
  show ?thesis
    using lookup_failure_skips_document [OF f, of example_db 5] f v by blast
qed

section \<open>The entry point of the workbook script\<close>

text \<open>
  Claim C10. When \<open>sys.argv\<close> does not have exactly three entries (the script name and
  the two positional arguments), the entry point prints the usage message, makes no call
  of \<open>process_workbook\<close> and exits with status 1.
\<close>

theorem main_wrong_argument_count:
  assumes "length argv \<noteq> 3"
  shows "main argv = \<lparr>stdout = [usage], process_workbook_calls = [], ended = SysExit 1\<rparr>"
  using assms by (simp add: main_def)

theorem main_wrong_argument_count_witness:
  "length [''transcribe_workbook.py'', ''book.pdf''] \<noteq> 3 \<and>
   main [''transcribe_workbook.py'', ''book.pdf'']
     = \<lparr>stdout = [usage], process_workbook_calls = [], ended = SysExit 1\<rparr>"
proof -
  have l: "length [''transcribe_workbook.py'', ''book.pdf''] \<noteq> 3" by simp
  show ?thesis using main_wrong_argument_count [OF l] l by blast
qed

section \<open>Exceptions of the remote call\<close>






section \<open>A candidate with empty text\<close>




section \<open>The document id in the persisted rows\<close>

text \<open>
  Claim C8 at the page-range script: a first pass on the unprocessed example document
  inserts three rows, none of which has a document id; when the document is then marked
  \<open>deleted\<close> and the script runs again, the sweep advances the status to
  \<open>deleted_applied\<close> and all three rows are still there.
\<close>

theorem document_rows_lack_document_id:
  "map (\<lambda>tdoc. document_id (snd tdoc))
       (document_transcriptions (process_documents_document example_env unprocessed_db))
     = [None, None, None] \<and>
   map status (document_metadata (process_documents_document example_env unprocessed_db))
     = [''processed''] \<and>
   map status (document_metadata (process_documents_document example_env
       (update_status (process_documents_document example_env unprocessed_db) ''d'' ''deleted'')))
     = [''deleted_applied''] \<and>
   document_transcriptions (process_documents_document example_env
       (update_status (process_documents_document example_env unprocessed_db) ''d'' ''deleted''))
     = document_transcriptions (process_documents_document example_env unprocessed_db)"
  by code_simp

section \<open>Two error-recovery runs in a row\<close>

lemma save_to_firestore_metadata [simp]:
  "document_metadata (save_to_firestore e st t p f d) = document_metadata st"
  by (simp add: save_to_firestore_def collection_add_def Let_def)


lemma process_page_batch_metadata [simp]:
  "document_metadata (process_page_batch tr e st gs f d) = document_metadata st"
  by (induction gs arbitrary: st) (simp_all add: Let_def)



lemma process_page_batch_append:
  "process_page_batch tr e st (xs @ ys) f d
     = process_page_batch tr e (process_page_batch tr e st xs f d) ys f d"
  by (induction xs arbitrary: st) (simp_all add: Let_def)

lemma fold_process_page_batch:
  "fold (\<lambda>batch s. process_page_batch tr e s batch f d) bs st
     = process_page_batch tr e st (concat bs) f d"
  by (induction bs arbitrary: st) (simp_all add: process_page_batch_append)

lemma process_error_doc_metadata [simp]:
  "document_metadata (process_error_doc e st doc) = document_metadata st"
  by (simp add: process_error_doc_def fold_process_page_batch Let_def split: option.splits sum.splits)


lemma fold_process_error_doc_metadata [simp]:
  "document_metadata (fold (\<lambda>doc s. process_error_doc e s doc) docs st) = document_metadata st"
  by (induction docs arbitrary: st) simp_all











section \<open>The pages dispatched by an error-recovery run\<close>






section \<open>The deletion sweep and the status of a document\<close>

lemma query_empty_iff:
  "query_transcriptions st d = [] \<longleftrightarrow>
     (\<forall>t \<in> set (document_transcriptions st). document_id (snd t) \<noteq> Some d)"
  by (auto simp: query_transcriptions_def filter_empty_conv)

lemma delete_transcription_metadata [simp]:
  "document_metadata (delete_transcription st tid) = document_metadata st"
  by (simp add: delete_transcription_def)

lemma fold_delete_transcription:
  "document_transcriptions (fold (\<lambda>tdoc s. delete_transcription s (fst tdoc)) ds st)
     = filter (\<lambda>t. fst t \<notin> fst ` set ds) (document_transcriptions st) \<and>
   document_metadata (fold (\<lambda>tdoc s. delete_transcription s (fst tdoc)) ds st)
     = document_metadata st"
proof (induction ds arbitrary: st)
  case Nil
  show ?case by simp
next
  case (Cons x xs)
  have "filter (\<lambda>t. fst t \<notin> fst ` set xs) (filter (\<lambda>tdoc. fst tdoc \<noteq> fst x) (document_transcriptions st))
        = filter (\<lambda>t. fst t \<notin> fst ` set (x # xs)) (document_transcriptions st)"
    by (auto intro: filter_cong)
  then show ?case
    using Cons [of "delete_transcription st (fst x)"] by (simp add: delete_transcription_def)
qed

text \<open>A loop that ends without an exception has run every body to its end, and a loop
  whose bodies keep an invariant keeps it however it ends.\<close>

lemma for_each_Done:
  assumes "for_each body xs st = Done st'"
      and "\<And>x s s'. body x s = Done s' \<Longrightarrow> s' = step x s"
  shows "st' = fold step xs st"
  using assms(1)
proof (induction xs arbitrary: st)
  case Nil
  then show ?case by simp
next
  case (Cons x xs)
  show ?case
  proof (cases "body x st")
    case (Done s)
    with Cons.prems have "for_each body xs s = Done st'" by simp
    then have "st' = fold step xs s" by (rule Cons.IH)
    moreover have "s = step x st" using Done by (rule assms(2))
    ultimately show ?thesis by simp
  next
    case (Aborted ex s)
    with Cons.prems show ?thesis by simp
  qed
qed

lemma for_each_total:
  assumes "\<And>x s. \<exists>s'. body x s = Done s'"
  shows "\<exists>st'. for_each body xs st = Done st'"
proof (induction xs arbitrary: st)
  case Nil
  show ?case by simp
next
  case (Cons x xs)
  from assms obtain s where s: "body x st = Done s" by blast
  from Cons [of s] show ?case by (simp add: s)
qed

lemma for_each_invariant:
  assumes "\<And>x s. P s \<Longrightarrow> P (db_of (body x s))" and "P st"
  shows "P (db_of (for_each body xs st))"
  using assms(2)
proof (induction xs arbitrary: st)
  case Nil
  then show ?case by (simp add: db_of_def)
next
  case (Cons x xs)
  from Cons.prems have p: "P (db_of (body x st))" by (rule assms(1))
  show ?case
  proof (cases "body x st")
    case (Done s)
    with p have "P s" by (simp add: db_of_def)
    then have "P (db_of (for_each body xs s))" by (rule Cons.IH)
    then show ?thesis by (simp add: Done)
  next
    case (Aborted ex s)
    with p show ?thesis by (simp add: db_of_def)
  qed
qed

lemma fold_delete_query:
  fixes st :: db and d :: string
  defines "st' \<equiv> fold (\<lambda>tdoc s. delete_transcription s (fst tdoc)) (query_transcriptions st d) st"
  shows "document_metadata st' = document_metadata st"
    and "set (document_transcriptions st') \<subseteq> set (document_transcriptions st)"
    and "query_transcriptions st' d = []"
proof -
  show "document_metadata st' = document_metadata st"
    by (simp add: st'_def fold_delete_transcription)
  show "set (document_transcriptions st') \<subseteq> set (document_transcriptions st)"
    by (auto simp: st'_def fold_delete_transcription)
  have "\<forall>t \<in> set (document_transcriptions st'). document_id (snd t) \<noteq> Some d"
  proof
    fix t
    assume "t \<in> set (document_transcriptions st')"
    then have t: "t \<in> set (document_transcriptions st)"
        and n: "fst t \<notin> fst ` set (query_transcriptions st d)"
      by (simp_all add: st'_def fold_delete_transcription)
    show "document_id (snd t) \<noteq> Some d"
    proof
      assume "document_id (snd t) = Some d"
      with t have "t \<in> set (query_transcriptions st d)"
        by (simp add: query_transcriptions_def)
      with n show False by blast
    qed
  qed
  then show "query_transcriptions st' d = []" by (simp add: query_empty_iff)
qed

lemma delete_transcriptions_of_Done:
  assumes "delete_transcriptions_of e st d = Done st'"
  shows "st' = fold (\<lambda>tdoc s. delete_transcription s (fst tdoc)) (query_transcriptions st d) st"
proof -
  let ?body = "\<lambda>tdoc st'. if delete_ok e (fst tdoc)
                            then Done (delete_transcription st' (fst tdoc))
                            else Aborted RemoteError st'"
  have ok: "stream_ok e d"
    using assms by (simp add: delete_transcriptions_of_def stream_transcriptions_def split: if_splits)
  then have "for_each ?body (query_transcriptions st d) st = Done st'"
    using assms
    by (simp add: delete_transcriptions_of_def stream_transcriptions_def query_transcriptions_def)
  then show ?thesis
  proof (rule for_each_Done)
    fix x :: "nat \<times> trow" and s s' :: db
    assume "?body x s = Done s'"
    then show "s' = delete_transcription s (fst x)" by (simp split: if_splits)
  qed
qed

lemma delete_transcriptions_of_props:
  assumes "delete_transcriptions_of e st d = Done st'"
  shows "document_metadata st' = document_metadata st"
    and "set (document_transcriptions st') \<subseteq> set (document_transcriptions st)"
    and "query_transcriptions st' d = []"
  unfolding delete_transcriptions_of_Done [OF assms] by (rule fold_delete_query)+

lemma delete_transcriptions_of_total:
  assumes "stream_ok e d" and "\<forall>i. delete_ok e i"
  shows "\<exists>st'. delete_transcriptions_of e st d = Done st'"
proof -
  have "\<exists>st'. for_each (\<lambda>tdoc st'. if delete_ok e (fst tdoc)
                                     then Done (delete_transcription st' (fst tdoc))
                                     else Aborted RemoteError st')
                 (query_transcriptions st d) st = Done st'"
    by (rule for_each_total) (simp add: assms(2))
  then show ?thesis
    using assms(1)
    by (simp add: delete_transcriptions_of_def stream_transcriptions_def query_transcriptions_def)
qed

lemma delete_transcriptions_of_any:
  "document_metadata (db_of (delete_transcriptions_of e st d)) = document_metadata st \<and>
   set (document_transcriptions (db_of (delete_transcriptions_of e st d)))
     \<subseteq> set (document_transcriptions st)"
proof (cases "stream_ok e d")
  case False
  then show ?thesis
    by (simp add: delete_transcriptions_of_def stream_transcriptions_def db_of_def)
next
  case True
  let ?P = "\<lambda>s. document_metadata s = document_metadata st \<and>
                 set (document_transcriptions s) \<subseteq> set (document_transcriptions st)"
  let ?body = "\<lambda>tdoc st'. if delete_ok e (fst tdoc)
                            then Done (delete_transcription st' (fst tdoc))
                            else Aborted RemoteError st'"
  have "?P (db_of (for_each ?body (query_transcriptions st d) st))"
  proof (rule for_each_invariant [where P = ?P])
    show "?P st" by simp
  next
    fix x :: "nat \<times> trow" and s :: db
    assume "?P s"
    then show "?P (db_of (?body x s))"
      by (auto simp: db_of_def delete_transcription_def)
  qed
  then show ?thesis
    using True
    by (simp add: delete_transcriptions_of_def stream_transcriptions_def query_transcriptions_def)
qed


lemma update_status_transcriptions [simp]:
  "document_transcriptions (update_status st d s) = document_transcriptions st"
  by (simp add: update_status_def)

lemma query_update_status [simp]:
  "query_transcriptions (update_status st d s) d' = query_transcriptions st d'"
  by (simp add: query_transcriptions_def)









lemma purge_unprocessed_total:
  assumes "select_ok e ''unprocessed'' None" and "\<forall>d. stream_ok e d" and "\<forall>i. delete_ok e i"
  shows "\<exists>st2. purge_unprocessed e st = Done st2"
proof -
  have "\<exists>st2. for_each (\<lambda>d st'. delete_transcriptions_of e st' d)
          (map doc_id (filter (\<lambda>doc. status doc = ''unprocessed'') (document_metadata st))) st
        = Done st2"
  proof (rule for_each_total)
    fix x :: string and s :: db
    show "\<exists>s'. delete_transcriptions_of e s x = Done s'"
      using assms(2,3) delete_transcriptions_of_total [of e x s] by blast
  qed
  then show ?thesis using assms(1) by (simp add: purge_unprocessed_def)
qed


























text \<open>
  Claim C6 at the Supabase first passes. The documents \<open>a\<close>, \<open>b\<close> and \<open>c\<close> have the
  same file name. The sweep advances \<open>a\<close> to \<open>deleted_applied\<close>; the settle step of
  \<open>b\<close> then updates the status by file name, and \<open>a\<close> ends as \<open>processed\<close>, which is
  a step back. The one-page first pass, which updates by id, leaves \<open>a\<close> at
  \<open>deleted_applied\<close>.
\<close>

theorem twopage_status_regresses:
  "map (\<lambda>doc. (doc_id doc, doc_file_name doc, status doc)) (document_metadata mixed_db)
     = [(''a'', ''f.pdf'', ''deleted''), (''b'', ''f.pdf'', ''unprocessed''),
        (''c'', ''f.pdf'', ''processed'')] \<and>
   map status (document_metadata (db_of (sweep_deleted_supabase example_env mixed_db)))
     = [''deleted_applied'', ''unprocessed'', ''processed''] \<and>
   map status (document_metadata (process_documents_twopage example_env mixed_db))
     = [''processed'', ''processed'', ''processed''] \<and>
   map status (document_metadata (process_documents_document example_env mixed_db))
     = [''processed'', ''processed'', ''processed''] \<and>
   map status (document_metadata (process_documents_twopage example_env
                  (db_of (sweep_deleted_supabase example_env mixed_db))))
     = [''processed'', ''processed'', ''processed''] \<and>
   \<not> status_advances ''deleted'' ''processed'' \<and>
   \<not> status_advances ''deleted_applied'' ''processed'' \<and>
   map status (document_metadata (process_documents_onepage example_env mixed_db))
     = [''deleted_applied'', ''processed'', ''processed'']"
  by code_simp

section \<open>Splitting a document into page-groups\<close>

lemma ranges_disjoint_sorted_wrt:
  "sorted_wrt (\<lambda>r r'. snd r < fst r') rs \<Longrightarrow> ranges_disjoint rs"
  by (induction rs) (auto simp: range_pages_def)

lemma ranges_disjoint_singletons:
  "distinct ps \<Longrightarrow> ranges_disjoint (map (\<lambda>p. (p, p)) ps)"
  by (induction ps) (auto simp: range_pages_def)

lemma ranges_union_singletons: "ranges_union (map (\<lambda>p. (p, p)) ps) = set ps"
  by (auto simp: ranges_union_def range_pages_def)

lemma ranges_disjoint_shrink:
  "\<forall>x \<in> set xs. range_pages (f x) \<subseteq> range_pages (g x) \<Longrightarrow>
   ranges_disjoint (map g xs) \<Longrightarrow> ranges_disjoint (map f xs)"
  by (induction xs) (auto, blast)

lemma upto_shift: "map (\<lambda>j. f (j + 1)) [a - 1..b - 1] = map f [a..b]"
proof (rule nth_equalityI)
  show "length (map (\<lambda>j. f (j + 1)) [a - 1..b - 1]) = length (map f [a..b])" by simp
next
  fix i
  assume "i < length (map (\<lambda>j. f (j + 1)) [a - 1..b - 1])"
  then have i: "int i < b - a + 1" by simp
  then have "[a - 1..b - 1] ! i = a - 1 + int i" "[a..b] ! i = a + int i"
    by (simp_all add: nth_upto)
  then show "map (\<lambda>j. f (j + 1)) [a - 1..b - 1] ! i = map f [a..b] ! i"
    using i by (simp add: add.commute add.left_commute)
qed

lemma filter_upto_less: "filter (\<lambda>j. j < n) [a..b] = [a..min b (n - 1)]"
proof (rule sorted_distinct_set_unique)
  show "sorted (filter (\<lambda>j. j < n) [a..b])" by (rule sorted_wrt_filter) simp
  show "distinct (filter (\<lambda>j. j < n) [a..b])" by simp
  show "sorted [a..min b (n - 1)]" by simp
  show "distinct [a..min b (n - 1)]" by simp
  show "set (filter (\<lambda>j. j < n) [a..b]) = set [a..min b (n - 1)]" by auto
qed

lemma add_pages_nonneg:
  "\<forall>j \<in> set js. 0 \<le> j \<Longrightarrow>
   add_pages pages js = Inr (map (\<lambda>j. pages ! nat j) (filter (\<lambda>j. j < int (length pages)) js))"
  by (induction js) (simp_all add: pages_get_def Let_def)

lemma pdf_chunk_pages_of:
  assumes "1 \<le> problem_start_page pr"
  shows "pdf_chunk pages pr
           = Inr (pages_of pages (fst (problem_range pages pr)) (snd (problem_range pages pr)))"
proof -
  let ?a = "problem_start_page pr" and ?b = "problem_end_page pr" and ?n = "int (length pages)"
  have "\<forall>j \<in> set [?a - 1..?b - 1]. 0 \<le> j" using assms by auto
  then have "pdf_chunk pages pr
      = Inr (map (\<lambda>j. pages ! nat j) (filter (\<lambda>j. j < ?n) [?a - 1..?b - 1]))"
    unfolding pdf_chunk_def py_range_def by (rule add_pages_nonneg)
  also have "filter (\<lambda>j. j < ?n) [?a - 1..?b - 1] = [?a - 1..min ?b ?n - 1]"
    by (simp add: filter_upto_less min_def)
  also have "map (\<lambda>j. pages ! nat j) [?a - 1..min ?b ?n - 1]
      = map (\<lambda>k. pages ! nat (k - 1)) [?a..min ?b ?n]"
    using upto_shift [of "\<lambda>k. pages ! nat (k - 1)" ?a "min ?b ?n"] by simp
  finally show ?thesis by (simp add: pages_of_def problem_range_def)
qed


lemma cover_two_ranges_eq:
  "cover_two_ranges n =
     (1, 1) # map (\<lambda>k. (2 + 2 * int k, if 2 + 2 * int k < n then 3 + 2 * int k else 2 + 2 * int k))
                  [0..<nat (n div 2)]"
  by (simp add: cover_two_ranges_def py_range_step_def o_def algebra_simps)

lemma cover_two_ranges_props:
  assumes "1 \<le> n"
  shows "ranges_disjoint (cover_two_ranges n)"
    and "ranges_union (cover_two_ranges n) = {1..n}"
    and "ranges_within n (cover_two_ranges n)"
    and "ranges_ascending (cover_two_ranges n)"
proof -
  let ?f = "\<lambda>k. (2 + 2 * int k, if 2 + 2 * int k < n then 3 + 2 * int k else 2 + 2 * int k)"
  let ?m = "nat (n div 2)"
  have eq: "cover_two_ranges n = (1, 1) # map ?f [0..<?m]" by (rule cover_two_ranges_eq)
  have bound: "2 + 2 * int k \<le> n" if "k < ?m" for k
  proof -
    from that have "int k < n div 2" by simp
    then have "int k + 1 \<le> n div 2" by simp
    then have "2 * (int k + 1) \<le> 2 * (n div 2)" by simp
    also have "\<dots> \<le> n" by simp
    finally show ?thesis by simp
  qed
  have "sorted_wrt (\<lambda>r r'. snd r < fst r') (map ?f [0..<?m])"
    unfolding sorted_wrt_map
    by (rule sorted_wrt_mono_rel [of _ "(<)"]) auto
  then have "sorted_wrt (\<lambda>r r'. snd r < fst r') (cover_two_ranges n)"
    unfolding eq by auto
  then show "ranges_disjoint (cover_two_ranges n)" by (rule ranges_disjoint_sorted_wrt)
  show "ranges_within n (cover_two_ranges n)"
    unfolding eq ranges_within_def using assms bound by auto
  have "sorted_wrt (\<lambda>r r'. fst r \<le> fst r') (map ?f [0..<?m])"
    unfolding sorted_wrt_map
    by (rule sorted_wrt_mono_rel [of _ "(<)"]) auto
  then have "sorted_wrt (\<lambda>r r'. fst r \<le> fst r') (cover_two_ranges n)"
    unfolding eq by auto
  then show "ranges_ascending (cover_two_ranges n)"
    by (simp add: ranges_ascending_def sorted_wrt_map)
  show "ranges_union (cover_two_ranges n) = {1..n}"
  proof (intro equalityI subsetI)
    fix p
    assume "p \<in> ranges_union (cover_two_ranges n)"
    then consider "p = 1" | k where "k < ?m" "p \<in> range_pages (?f k)"
      unfolding eq ranges_union_def by (auto simp: range_pages_def)
    then show "p \<in> {1..n}"
    proof cases
      case 1
      with assms show ?thesis by simp
    next
      case 2
      with bound [of k] show ?thesis by (auto simp: range_pages_def split: if_splits)
    qed
  next
    fix p
    assume p: "p \<in> {1..n}"
    show "p \<in> ranges_union (cover_two_ranges n)"
    proof (cases "p = 1")
      case True
      then show ?thesis unfolding eq ranges_union_def by (simp add: range_pages_def)
    next
      case False
      with p have p2: "2 \<le> p" "p \<le> n" by auto
      define k where "k = nat ((p - 2) div 2)"
      have k: "int k = (p - 2) div 2" using p2 by (simp add: k_def)
      have lo: "2 + 2 * int k \<le> p" unfolding k by presburger
      have hi: "p \<le> 3 + 2 * int k" unfolding k by presburger
      have "(p - 2) div 2 < n div 2" using p2 by presburger
      then have km: "k < ?m" using k by linarith
      have pk: "p \<in> range_pages (?f k)"
        using lo hi p2 by (auto simp: range_pages_def)
      have "k \<in> {0..<?m}" using km by simp
      then have "?f k \<in> ?f ` {0..<?m}" by (rule imageI)
      with pk have "p \<in> \<Union> (range_pages ` ?f ` {0..<?m})" by blast
      then show ?thesis unfolding eq ranges_union_def by (simp add: image_image)
    qed
  qed
qed


lemma pages_of_succ1: "pages_of pages (i + 1) (i + 1) = [pages ! nat i]"
  by (simp add: pages_of_def)

lemma pages_of_succ2: "pages_of pages (i + 1) (i + 2) = [pages ! nat i, pages ! nat (i + 1)]"
  by (simp add: pages_of_def upto_rec1 add.commute)

lemma data_is_pages_of:
  assumes "data g = pages ! nat i # (if i + 1 < n then [pages ! nat (i + 1)] else [])"
      and "gpage g = i + 1"
  shows "data g = pages_of pages (fst (group_range g)) (snd (group_range g))"
proof (cases "i + 1 < n")
  case True
  then have "group_range g = (i + 1, i + 2)" using assms by (simp add: group_range_def)
  then show ?thesis using assms True by (simp only: fst_conv snd_conv pages_of_succ2 if_True)
next
  case False
  then have "group_range g = (i + 1, i + 1)" using assms by (simp add: group_range_def)
  then show ?thesis using assms False by (simp only: fst_conv snd_conv pages_of_succ1 if_False)
qed

lemma data_is_pages_of_single:
  assumes "data g = [pages ! nat i]" and "gpage g = i + 1"
  shows "data g = pages_of pages (fst (group_range g)) (snd (group_range g))"
proof -
  have "group_range g = (i + 1, i + 1)" using assms by (simp add: group_range_def)
  then show ?thesis using assms by (simp only: fst_conv snd_conv pages_of_succ1)
qed

lemma pages_get_first: "pages \<noteq> [] \<Longrightarrow> pages_get pages 0 = Inr (pages ! 0)"
  by (simp add: pages_get_def)

lemma onepage_ranges:
  shows "map group_range (split_pdf_in_memory_onepage pages) = map (\<lambda>p. (p, p)) [1..int (length pages)]"
    and "\<forall>g \<in> set (split_pdf_in_memory_onepage pages).
           data g = pages_of pages (fst (group_range g)) (snd (group_range g))"
proof -
  have "map group_range (split_pdf_in_memory_onepage pages)
          = map (\<lambda>j. (j + 1, j + 1)) [1 - 1..int (length pages) - 1]"
    by (simp add: split_pdf_in_memory_onepage_def py_range_def group_range_def o_def)
  also have "\<dots> = map (\<lambda>p. (p, p)) [1..int (length pages)]"
    by (rule upto_shift)
  finally show "map group_range (split_pdf_in_memory_onepage pages)
      = map (\<lambda>p. (p, p)) [1..int (length pages)]" .
  show "\<forall>g \<in> set (split_pdf_in_memory_onepage pages).
           data g = pages_of pages (fst (group_range g)) (snd (group_range g))"
  proof
    fix g
    assume "g \<in> set (split_pdf_in_memory_onepage pages)"
    then obtain i where "data g = [pages ! nat i]" "gpage g = i + 1"
      by (auto simp: split_pdf_in_memory_onepage_def)
    then show "data g = pages_of pages (fst (group_range g)) (snd (group_range g))"
      by (rule data_is_pages_of_single)
  qed
qed

lemma singletons_partition:
  assumes "distinct ps" and "\<forall>p \<in> set ps. 1 \<le> p \<and> p \<le> n"
  shows "partitions n (set ps) (map (\<lambda>p. (p, p)) ps)"
  using assms
  by (simp add: partitions_def ranges_disjoint_singletons ranges_union_singletons ranges_within_def)

lemma document_ranges:
  assumes "pages \<noteq> []"
  shows "\<exists>gs. split_pdf_in_memory_document pages = Inr gs \<and>
              map range_group_range gs = cover_two_ranges (int (length pages)) \<and>
              (\<forall>g \<in> set gs. rdata g = pages_of pages (page_start g) (page_end g))"
proof -
  let ?n = "int (length pages)"
  let ?mk = "\<lambda>i. let page_end' = (if i + 1 < ?n then i + 2 else i + 1)
                 in \<lparr>rname = ''pages_'' @ str (i + 1) @ ''-'' @ str page_end',
                     rdata = pages ! nat i # (if i + 1 < ?n then [pages ! nat (i + 1)] else []),
                     page_start = i + 1, page_end = page_end'\<rparr>"
  let ?gs = "\<lparr>rname = ''cover'', rdata = [pages ! 0], page_start = 1, page_end = 1\<rparr>
             # map ?mk (py_range_step 1 ?n 2)"
  have a: "split_pdf_in_memory_document pages = Inr ?gs"
    using assms by (simp add: split_pdf_in_memory_document_def pages_get_first Let_def)
  have b: "map range_group_range ?gs = cover_two_ranges ?n"
    by (simp add: cover_two_ranges_def range_group_range_def Let_def o_def)
  have c: "\<forall>g \<in> set ?gs. rdata g = pages_of pages (page_start g) (page_end g)"
  proof
    fix g
    assume "g \<in> set ?gs"
    then consider "g = \<lparr>rname = ''cover'', rdata = [pages ! 0], page_start = 1, page_end = 1\<rparr>"
      | i where "i \<in> set (py_range_step 1 ?n 2)" "g = ?mk i"
      by auto
    then show "rdata g = pages_of pages (page_start g) (page_end g)"
    proof cases
      case 1
      then have "rdata g = [pages ! nat 0]" "page_start g = 0 + 1" "page_end g = 0 + 1"
        by simp_all
      then show ?thesis by (simp only: pages_of_succ1)
    next
      case 2
      show ?thesis
      proof (cases "i + 1 < ?n")
        case True
        then have "rdata g = [pages ! nat i, pages ! nat (i + 1)]"
            "page_start g = i + 1" "page_end g = i + 2"
          using 2(2) by (simp_all add: Let_def)
        then show ?thesis by (simp only: pages_of_succ2)
      next
        case False
        then have "rdata g = [pages ! nat i]" "page_start g = i + 1" "page_end g = i + 1"
          using 2(2) by (simp_all add: Let_def)
        then show ?thesis by (simp only: pages_of_succ1)
      qed
    qed
  qed
  from a b c show ?thesis by blast
qed

lemma twopage_ranges:
  assumes "pages \<noteq> []"
  shows "\<exists>gs. split_pdf_in_memory_twopage pages = Inr gs \<and>
              map group_range gs = cover_two_ranges (int (length pages)) \<and>
              (\<forall>g \<in> set gs. data g = pages_of pages (fst (group_range g)) (snd (group_range g)))"
proof -
  let ?n = "int (length pages)"
  let ?mk = "\<lambda>i. \<lparr>name = ''pages_'' @ str (i + 1),
                    data = pages ! nat i # (if i + 1 < ?n then [pages ! nat (i + 1)] else []),
                    gpage = i + 1\<rparr>"
  let ?gs = "\<lparr>name = ''cover'', data = [pages ! 0], gpage = 1\<rparr> # map ?mk (py_range_step 1 ?n 2)"
  have a: "split_pdf_in_memory_twopage pages = Inr ?gs"
    using assms by (simp add: split_pdf_in_memory_twopage_def pages_get_first Let_def)
  have b: "map group_range ?gs = cover_two_ranges ?n"
    by (simp add: cover_two_ranges_def group_range_def o_def)
  have c: "\<forall>g \<in> set ?gs. data g = pages_of pages (fst (group_range g)) (snd (group_range g))"
  proof
    fix g
    assume "g \<in> set ?gs"
    then consider "g = \<lparr>name = ''cover'', data = [pages ! 0], gpage = 1\<rparr>"
      | i where "i \<in> set (py_range_step 1 ?n 2)" "g = ?mk i"
      by auto
    then show "data g = pages_of pages (fst (group_range g)) (snd (group_range g))"
    proof cases
      case 1
      then have "data g = [pages ! nat 0]" "gpage g = 0 + 1" by simp_all
      then show ?thesis by (rule data_is_pages_of_single)
    next
      case 2
      have "data g = pages ! nat i # (if i + 1 < ?n then [pages ! nat (i + 1)] else [])"
          and "gpage g = i + 1"
        using 2(2) by simp_all
      then show ?thesis by (rule data_is_pages_of)
    qed
  qed
  from a b c show ?thesis by blast
qed

lemma split_empty_document:
  "split_pdf_in_memory_document [] = Inl IndexError"
  "split_pdf_in_memory_twopage [] = Inl IndexError"
  by (simp_all add: split_pdf_in_memory_document_def split_pdf_in_memory_twopage_def pages_get_def)

lemma extract_ranges:
  assumes "\<forall>p \<in> set ps. 1 \<le> p"
  shows "\<exists>gs. extract_specific_pages_from_pdf pages ps = Inr gs \<and>
              map gpage gs = filter (\<lambda>p. p \<le> int (length pages)) ps \<and>
              map group_range gs = map (\<lambda>p. (p, p)) (filter (\<lambda>p. p \<le> int (length pages)) ps) \<and>
              (\<forall>g \<in> set gs. data g = pages_of pages (fst (group_range g)) (snd (group_range g)))"
proof -
  let ?gs = "map (\<lambda>p. \<lparr>name = ''page_'' @ str p, data = [pages ! nat (p - 1)], gpage = p\<rparr>)
               (filter (\<lambda>p. p \<le> int (length pages)) ps)"
  have "extract_specific_pages_from_pdf pages ps = Inr ?gs"
    using assms by (rule extract_positive)
  moreover have "map gpage ?gs = filter (\<lambda>p. p \<le> int (length pages)) ps"
    by (simp add: o_def)
  moreover have "map group_range ?gs = map (\<lambda>p. (p, p)) (filter (\<lambda>p. p \<le> int (length pages)) ps)"
    by (simp add: o_def group_range_def)
  moreover have "\<forall>g \<in> set ?gs. data g = pages_of pages (fst (group_range g)) (snd (group_range g))"
  proof
    fix g
    assume "g \<in> set ?gs"
    then obtain p where "data g = [pages ! nat (p - 1)]" "gpage g = (p - 1) + 1" by auto
    then show "data g = pages_of pages (fst (group_range g)) (snd (group_range g))"
      by (rule data_is_pages_of_single)
  qed
  ultimately show ?thesis by blast
qed

lemma problem_ranges:
  assumes pos: "\<forall>pr \<in> set problems. 1 \<le> problem_start_page pr"
      and dis: "ranges_disjoint (map requested_range problems)"
  shows "map (pdf_chunk pages) problems
           = map (\<lambda>pr. Inr (pages_of pages (fst (problem_range pages pr)) (snd (problem_range pages pr))))
               problems"
    and "partitions (int (length pages))
           (ranges_union (map requested_range problems) \<inter> {1..int (length pages)})
           (map (problem_range pages) problems)"
    and "map fst (map (problem_range pages) problems) = map fst (map requested_range problems)"
proof -
  show "map (pdf_chunk pages) problems
           = map (\<lambda>pr. Inr (pages_of pages (fst (problem_range pages pr)) (snd (problem_range pages pr))))
               problems"
    using pos by (auto simp: pdf_chunk_pages_of)
  have sub: "\<forall>pr \<in> set problems. range_pages (problem_range pages pr) \<subseteq> range_pages (requested_range pr)"
    by (auto simp: range_pages_def problem_range_def requested_range_def)
  have d: "ranges_disjoint (map (problem_range pages) problems)"
    using sub dis by (rule ranges_disjoint_shrink)
  have u: "ranges_union (map (problem_range pages) problems)
             = ranges_union (map requested_range problems) \<inter> {1..int (length pages)}"
    using pos
    by (auto simp: ranges_union_def range_pages_def problem_range_def requested_range_def)
  have w: "ranges_within (int (length pages)) (map (problem_range pages) problems)"
    using pos by (auto simp: ranges_within_def problem_range_def)
  from d u w show "partitions (int (length pages))
           (ranges_union (map requested_range problems) \<inter> {1..int (length pages)})
           (map (problem_range pages) problems)"
    by (simp add: partitions_def)
  show "map fst (map (problem_range pages) problems) = map fst (map requested_range problems)"
    by (simp add: problem_range_def requested_range_def)
qed


text \<open>
  Claim C2, amended. The one-page policy on any document, the cover-plus-two policy (both
  scripts) on a document with at least one page, the explicit page list when its numbers
  are positive and pairwise distinct, and the explicit ranges of the workbook when they
  start at page 1 or later and do not overlap: the bytes of every group are the pages of
  its range, the ranges are pairwise disjoint, their union is the set of the requested
  pages that the document has, none exceeds the page count (a requested page beyond it is
  skipped), and the groups come in the order of the request, which is ascending for the
  first two policies.
\<close>

theorem splitting_is_partition:
  "partitions (int (length pages)) {1..int (length pages)}
     (map group_range (split_pdf_in_memory_onepage pages)) \<and>
   ranges_ascending (map group_range (split_pdf_in_memory_onepage pages)) \<and>
   (\<forall>g \<in> set (split_pdf_in_memory_onepage pages).
      data g = pages_of pages (fst (group_range g)) (snd (group_range g))) \<and>
   (pages \<noteq> [] \<longrightarrow>
      (\<exists>gs. split_pdf_in_memory_document pages = Inr gs \<and>
            partitions (int (length pages)) {1..int (length pages)} (map range_group_range gs) \<and>
            ranges_ascending (map range_group_range gs) \<and>
            (\<forall>g \<in> set gs. rdata g = pages_of pages (page_start g) (page_end g))) \<and>
      (\<exists>gs. split_pdf_in_memory_twopage pages = Inr gs \<and>
            partitions (int (length pages)) {1..int (length pages)} (map group_range gs) \<and>
            ranges_ascending (map group_range gs) \<and>
            (\<forall>g \<in> set gs. data g = pages_of pages (fst (group_range g)) (snd (group_range g))))) \<and>
   ((\<forall>p \<in> set requested. 1 \<le> p) \<and> distinct requested \<longrightarrow>
      (\<exists>gs. extract_specific_pages_from_pdf pages requested = Inr gs \<and>
            map gpage gs = filter (\<lambda>p. p \<le> int (length pages)) requested \<and>
            partitions (int (length pages)) (set requested \<inter> {1..int (length pages)})
              (map group_range gs) \<and>
            (\<forall>g \<in> set gs. data g = pages_of pages (fst (group_range g)) (snd (group_range g))))) \<and>
   ((\<forall>pr \<in> set problems. 1 \<le> problem_start_page pr) \<and>
    ranges_disjoint (map requested_range problems) \<longrightarrow>
      map (pdf_chunk pages) problems
        = map (\<lambda>pr. Inr (pages_of pages (fst (problem_range pages pr))
                                      (snd (problem_range pages pr)))) problems \<and>
      partitions (int (length pages))
        (ranges_union (map requested_range problems) \<inter> {1..int (length pages)})
        (map (problem_range pages) problems) \<and>
      map fst (map (problem_range pages) problems) = map problem_start_page problems)"
proof -
  let ?n = "int (length pages)"
  have a1: "partitions ?n {1..?n} (map group_range (split_pdf_in_memory_onepage pages))"
    using singletons_partition [of "[1..?n]" ?n] by (simp add: onepage_ranges(1))
  have a2: "ranges_ascending (map group_range (split_pdf_in_memory_onepage pages))"
    by (simp add: onepage_ranges(1) ranges_ascending_def o_def)
  note a3 = onepage_ranges(2) [of pages]
  have b: "(\<exists>gs. split_pdf_in_memory_document pages = Inr gs \<and>
               partitions ?n {1..?n} (map range_group_range gs) \<and>
               ranges_ascending (map range_group_range gs) \<and>
               (\<forall>g \<in> set gs. rdata g = pages_of pages (page_start g) (page_end g))) \<and>
           (\<exists>gs. split_pdf_in_memory_twopage pages = Inr gs \<and>
               partitions ?n {1..?n} (map group_range gs) \<and>
               ranges_ascending (map group_range gs) \<and>
               (\<forall>g \<in> set gs. data g = pages_of pages (fst (group_range g)) (snd (group_range g))))"
    if ne: "pages \<noteq> []"
  proof -
    have n1: "1 \<le> ?n" using ne by (cases pages) simp_all
    have ct: "partitions ?n {1..?n} (cover_two_ranges ?n)"
      using cover_two_ranges_props(1-3) [OF n1] by (simp add: partitions_def)
    note cta = cover_two_ranges_props(4) [OF n1]
    have b1: "\<exists>gs. split_pdf_in_memory_document pages = Inr gs \<and>
               partitions ?n {1..?n} (map range_group_range gs) \<and>
               ranges_ascending (map range_group_range gs) \<and>
               (\<forall>g \<in> set gs. rdata g = pages_of pages (page_start g) (page_end g))"
      using document_ranges [OF ne] ct cta by metis
    have b2: "\<exists>gs. split_pdf_in_memory_twopage pages = Inr gs \<and>
               partitions ?n {1..?n} (map group_range gs) \<and>
               ranges_ascending (map group_range gs) \<and>
               (\<forall>g \<in> set gs. data g = pages_of pages (fst (group_range g)) (snd (group_range g)))"
      using twopage_ranges [OF ne] ct cta by metis
    from b1 b2 show ?thesis by (rule conjI)
  qed
  have c: "\<exists>gs. extract_specific_pages_from_pdf pages requested = Inr gs \<and>
               map gpage gs = filter (\<lambda>p. p \<le> ?n) requested \<and>
               partitions ?n (set requested \<inter> {1..?n}) (map group_range gs) \<and>
               (\<forall>g \<in> set gs. data g = pages_of pages (fst (group_range g)) (snd (group_range g)))"
    if pos: "\<forall>p \<in> set requested. 1 \<le> p" and dist: "distinct requested"
  proof -
    let ?ps = "filter (\<lambda>p. p \<le> ?n) requested"
    have "partitions ?n (set ?ps) (map (\<lambda>p. (p, p)) ?ps)"
      using dist pos by (intro singletons_partition) auto
    moreover have "set ?ps = set requested \<inter> {1..?n}" using pos by auto
    ultimately have cp: "partitions ?n (set requested \<inter> {1..?n}) (map (\<lambda>p. (p, p)) ?ps)"
      by simp
    show ?thesis using extract_ranges [OF pos, of pages] cp by metis
  qed
  have d: "map (pdf_chunk pages) problems
             = map (\<lambda>pr. Inr (pages_of pages (fst (problem_range pages pr))
                                           (snd (problem_range pages pr)))) problems \<and>
           partitions ?n (ranges_union (map requested_range problems) \<inter> {1..?n})
             (map (problem_range pages) problems) \<and>
           map fst (map (problem_range pages) problems) = map problem_start_page problems"
    if ppos: "\<forall>pr \<in> set problems. 1 \<le> problem_start_page pr"
      and pdis: "ranges_disjoint (map requested_range problems)"
  proof -
    note d1 = problem_ranges(1) [OF ppos pdis, of pages]
    note d2 = problem_ranges(2) [OF ppos pdis, of pages]
    have d3: "map fst (map (problem_range pages) problems) = map problem_start_page problems"
      by (simp add: problem_range_def o_def)
    from d1 d2 d3 show ?thesis by blast
  qed
  from a1 a2 a3 b c d show ?thesis by blast
qed

theorem splitting_is_partition_witness:
  "example_pdf \<noteq> [] \<and> (1::int) \<le> 2 \<and> (1::int) \<le> 5 \<and> (1::int) \<le> 7 \<and>
   distinct [2, 5, 7 :: int] \<and>
   map problem_start_page example_problems = [1, 3, 5] \<and>
   ranges_disjoint (map requested_range example_problems) \<and>
   partitions 5 {1..5} (map group_range (split_pdf_in_memory_onepage example_pdf)) \<and>
   partitions 0 {1..0} (map group_range (split_pdf_in_memory_onepage [])) \<and>
   (\<exists>gs. split_pdf_in_memory_document example_pdf = Inr gs \<and>
         partitions 5 {1..5} (map range_group_range gs)) \<and>
   (\<exists>gs. split_pdf_in_memory_twopage example_pdf = Inr gs \<and>
         partitions 5 {1..5} (map group_range gs)) \<and>
   (\<exists>gs. extract_specific_pages_from_pdf example_pdf [2, 5, 7] = Inr gs \<and>
         map gpage gs = [2, 5]) \<and>
   map (problem_range example_pdf) example_problems = [(1, 2), (3, 4), (5, 5)] \<and>
   map (pdf_chunk example_pdf) example_problems
     = [Inr [''p1'', ''p2''], Inr [''p3'', ''p4''], Inr [''p5'']] \<and>
   partitions 5 (ranges_union (map requested_range example_problems) \<inter> {1..5})
     (map (problem_range example_pdf) example_problems)"
proof -
  have h1: "example_pdf \<noteq> []" by (simp add: example_pdf_def)
  have h2: "\<forall>p \<in> set [2, 5, 7 :: int]. 1 \<le> p" by simp
  have h3: "distinct [2, 5, 7 :: int]" by simp
  have h4: "\<forall>pr \<in> set example_problems. 1 \<le> problem_start_page pr"
    by (simp add: example_problems_def)
  have h5: "ranges_disjoint (map requested_range example_problems)"
    by (simp add: example_problems_def requested_range_def range_pages_def)
  have len: "int (length example_pdf) = 5" by (simp add: example_pdf_def)
  have len0: "int (length ([] :: pdf)) = 0" by simp
  have v1: "map problem_start_page example_problems = [1, 3, 5]"
    by (simp add: example_problems_def)
  have v2: "map (problem_range example_pdf) example_problems = [(1, 2), (3, 4), (5, 5)]"
    by (simp add: example_problems_def problem_range_def example_pdf_def)
  have v3: "map (pdf_chunk example_pdf) example_problems
     = [Inr [''p1'', ''p2''], Inr [''p3'', ''p4''], Inr [''p5'']]"
    by code_simp
  have v4: "filter (\<lambda>p. p \<le> int (length example_pdf)) [2, 5, 7] = [2, 5]"
    by (simp add: example_pdf_def)
  note th = splitting_is_partition [of example_pdf "[2, 5, 7]" example_problems]
  note th0 = splitting_is_partition [of "[]" "[]" "[]"]
  from th have t1: "partitions 5 {1..5} (map group_range (split_pdf_in_memory_onepage example_pdf))"
    unfolding len by blast
  from th0 have t0: "partitions 0 {1..0} (map group_range (split_pdf_in_memory_onepage []))"
    unfolding len0 by blast
  from th h1 have t2d: "\<exists>gs. split_pdf_in_memory_document example_pdf = Inr gs \<and>
         partitions 5 {1..5} (map range_group_range gs)"
    unfolding len by blast
  from th h1 have t2: "\<exists>gs. split_pdf_in_memory_twopage example_pdf = Inr gs \<and>
         partitions 5 {1..5} (map group_range gs)"
    unfolding len by blast
  from th h2 h3 have "\<exists>gs. extract_specific_pages_from_pdf example_pdf [2, 5, 7] = Inr gs \<and>
         map gpage gs = filter (\<lambda>p. p \<le> int (length example_pdf)) [2, 5, 7]"
    by blast
  then have t3: "\<exists>gs. extract_specific_pages_from_pdf example_pdf [2, 5, 7] = Inr gs \<and>
         map gpage gs = [2, 5]"
    unfolding v4 .
  from th h4 h5 have t4: "partitions 5
      (ranges_union (map requested_range example_problems) \<inter> {1..5})
      (map (problem_range example_pdf) example_problems)"
    unfolding len by blast
  from h1 h3 h5 v1 v2 v3 t0 t1 t2d t2 t3 t4 show ?thesis by simp
qed

text \<open>
  Claim C2, as stated, fails: two problems of the workbook whose requested ranges share
  page 2 give two groups that both hold page 2; an explicit page list that names page 2
  twice gives two groups of page 2; and the cover-plus-two policy raises on a document
  without pages.
\<close>

theorem overlapping_ranges_counterexample:
  "map requested_range overlapping_problems = [(1, 2), (2, 3)] \<and>
   map (pdf_chunk example_pdf) overlapping_problems = [Inr [''p1'', ''p2''], Inr [''p2'', ''p3'']] \<and>
   map (problem_range example_pdf) overlapping_problems = [(1, 2), (2, 3)] \<and>
   \<not> ranges_disjoint (map (problem_range example_pdf) overlapping_problems) \<and>
   extract_specific_pages_from_pdf example_pdf [2, 2]
     = Inr [\<lparr>name = ''page_2'', data = [''p2''], gpage = 2\<rparr>,
            \<lparr>name = ''page_2'', data = [''p2''], gpage = 2\<rparr>] \<and>
   \<not> ranges_disjoint [(2, 2), (2, 2)] \<and>
   split_pdf_in_memory_twopage [] = Inl IndexError \<and>
   split_pdf_in_memory_document [] = Inl IndexError"
  by code_simp

end
